theory Spec2Isabelle
  imports Main "HOL-Library.AList" "HOL-Library.Sublist"
begin

section \<open>Python text primitives\<close>

text \<open>
  A Python \<open>str\<close> is a sequence of code points. The model is over \<^typ>\<open>string\<close>, whose
  characters are the code points U+0000 to U+00FF; on these, \<open>str.lower\<close> and
  \<open>str.isspace\<close> are as defined below, and \<open>lower\<close> keeps the length of a string.
\<close>

datatype py_error =
    IndexError
  | ValueError string
  | RuntimeError string
  | OverflowError
  | OSError string
  | FileNotFoundError
  | FileExistsError
  | NotADirectoryError
  | IsADirectoryError
  | KeyError
  | GenerationError string

definition is_upper :: "char \<Rightarrow> bool" where
  "is_upper c = (let n = (of_char c :: nat) in
     (65 \<le> n \<and> n \<le> 90) \<or> (192 \<le> n \<and> n \<le> 222 \<and> n \<noteq> 215))"

text \<open>Lower-casing an upper-case letter of this range adds 32: it sets bit 5.\<close>

fun lower_char :: "char \<Rightarrow> char" where
  "lower_char (Char b0 b1 b2 b3 b4 b5 b6 b7) =
     (if is_upper (Char b0 b1 b2 b3 b4 b5 b6 b7) then Char b0 b1 b2 b3 b4 True b6 b7
      else Char b0 b1 b2 b3 b4 b5 b6 b7)"

definition lower :: "string \<Rightarrow> string" where
  "lower s = map lower_char s"

definition isspace :: "char \<Rightarrow> bool" where
  "isspace c = (let n = (of_char c :: nat) in
     (9 \<le> n \<and> n \<le> 13) \<or> (28 \<le> n \<and> n \<le> 32) \<or> n = 133 \<or> n = 160)"

definition strip :: "string \<Rightarrow> string" where
  "strip s = rev (dropWhile isspace (rev (dropWhile isspace s)))"

text \<open>\<open>sub in s\<close>: \<open>sub\<close> occurs in \<open>s\<close> as a contiguous run.\<close>

fun py_in :: "string \<Rightarrow> string \<Rightarrow> bool" where
  "py_in sub [] = (sub = [])"
| "py_in sub (c # cs) = (prefix sub (c # cs) \<or> py_in sub cs)"

text \<open>The text before and after the leftmost occurrence of \<open>sep\<close>, if there is one.\<close>

fun find_sep :: "string \<Rightarrow> string \<Rightarrow> (string \<times> string) option" where
  "find_sep sep [] = (if sep = [] then Some ([], []) else None)"
| "find_sep sep (c # cs) =
     (if prefix sep (c # cs) then Some ([], drop (length sep) (c # cs))
      else (case find_sep sep cs of
              None \<Rightarrow> None
            | Some (before, after) \<Rightarrow> Some (c # before, after)))"

lemma find_sep_length:
  "find_sep sep s = Some (b, a) \<Longrightarrow> length b + length sep + length a = length s"
proof (induction s arbitrary: b a)
  case Nil
  then show ?case by (simp split: if_splits)
next
  case (Cons c cs)
  show ?case
  proof (cases "prefix sep (c # cs)")
    case True
    then have le: "length sep \<le> length (c # cs)"
      by (rule prefix_length_le)
    from True Cons.prems have "b = []" and "a = drop (length sep) (c # cs)"
      by simp_all
    with le show ?thesis
      by simp
  next
    case False
    with Cons.prems obtain b' where "find_sep sep cs = Some (b', a)" "b = c # b'"
      by (auto split: option.splits)
    with Cons.IH show ?thesis by fastforce
  qed
qed

text \<open>
  \<open>s.split(sep)\<close>. Python raises \<open>ValueError\<close> on an empty separator; every caller in
  the program passes a non-empty literal, and the model returns \<open>[s]\<close> there.
\<close>

function py_split :: "string \<Rightarrow> string \<Rightarrow> string list" where
  "py_split sep s =
     (if sep = [] then [s]
      else (case find_sep sep s of
              None \<Rightarrow> [s]
            | Some (before, after) \<Rightarrow> before # py_split sep after))"
  by pat_completeness auto
termination
proof (relation "measure (\<lambda>(sep, s). length s)")
  show "wf (measure (\<lambda>(sep, s). length s))" by simp
next
  fix sep s :: string and x2 x y
  assume "sep \<noteq> []" "find_sep sep s = Some x2" "(x, y) = x2"
  then have "length x + length sep + length y = length s"
    using find_sep_length [of sep s x y] by simp
  with \<open>sep \<noteq> []\<close> show "((sep, y), (sep, s)) \<in> measure (\<lambda>(sep, s). length s)"
    by (cases sep) auto
qed

declare py_split.simps [simp del]

text \<open>\<open>sep.join(xs)\<close>.\<close>

fun py_join :: "string \<Rightarrow> string list \<Rightarrow> string" where
  "py_join sep [] = []"
| "py_join sep [x] = x"
| "py_join sep (x # y # ys) = x @ sep @ py_join sep (y # ys)"

text \<open>
  \<open>s.replace(old, new)\<close>, every non-overlapping occurrence from the left. With an empty
  \<open>old\<close> Python puts \<open>new\<close> before every character and at the end.
\<close>

function py_replace :: "string \<Rightarrow> string \<Rightarrow> string \<Rightarrow> string" where
  "py_replace old new s =
     (if old = [] then new @ concat (map (\<lambda>c. c # new) s)
      else (case find_sep old s of
              None \<Rightarrow> s
            | Some (before, after) \<Rightarrow> before @ new @ py_replace old new after))"
  by pat_completeness auto
termination
proof (relation "measure (\<lambda>(old, new, s). length s)")
  show "wf (measure (\<lambda>(old, new, s). length s))" by simp
next
  fix old new s :: string and x2 x y
  assume "old \<noteq> []" "find_sep old s = Some x2" "(x, y) = x2"
  then have "length x + length old + length y = length s"
    using find_sep_length [of old s x y] by simp
  with \<open>old \<noteq> []\<close> show "((old, new, y), (old, new, s)) \<in> measure (\<lambda>(old, new, s). length s)"
    by (cases old) auto
qed

declare py_replace.simps [simp del]

definition newline :: string where
  "newline = [CHR 0x0A]"

section \<open>Content parser (\<open>website_generator.py\<close>)\<close>

type_synonym file_set = "(string \<times> string) list"

text \<open>
  A \<open>Dict[str, str]\<close> in insertion order: \<^const>\<open>AList.update\<close> replaces the value of a
  key that is present where it stands and appends a new key, as a Python \<open>dict\<close> does.
\<close>

definition markers :: "string list" where
  "markers = [''filename:'', ''file:'', ''<!-- file:'', ''// file:'', ''# file:'']"

definition is_marker_line :: "string \<Rightarrow> bool" where
  "is_marker_line line = list_ex (\<lambda>marker. py_in marker (lower line)) markers"

text \<open>\<open>xs[1]\<close>, an \<open>IndexError\<close> when the list has fewer than two elements.\<close>

fun index1 :: "'a list \<Rightarrow> py_error + 'a" where
  "index1 (x # y # ys) = Inr y"
| "index1 _ = Inl IndexError"

text \<open>
  The inner \<open>for marker in [...]\<close> loop with its \<open>break\<close>: the first marker of the list
  that occurs in the lower-cased line names the file; when none occurs the cursor stays.
\<close>

fun extract_filename :: "string list \<Rightarrow> string \<Rightarrow> string option \<Rightarrow> py_error + string option" where
  "extract_filename [] line cur = Inr cur"
| "extract_filename (marker # ms) line cur =
     (if py_in marker (lower line)
      then (case index1 (py_split marker (lower line)) of
              Inl e \<Rightarrow> Inl e
            | Inr x \<Rightarrow> Inr (Some (strip (py_replace ''-->'' [] (strip x)))))
      else extract_filename ms line cur)"

record parse_state =
  files :: file_set
  current_file :: "string option"
  current_content :: "string list"

text \<open>Truth value of \<open>current_file\<close>: \<open>None\<close> and the empty string are false.\<close>

fun truthy :: "string option \<Rightarrow> bool" where
  "truthy None = False"
| "truthy (Some f) = (f \<noteq> [])"

text \<open>\<open>if current_file and current_content: files[current_file] = '\n'.join(current_content)\<close>\<close>

definition commit :: "parse_state \<Rightarrow> file_set" where
  "commit st =
     (case current_file st of
        None \<Rightarrow> files st
      | Some f \<Rightarrow>
          if f \<noteq> [] \<and> current_content st \<noteq> []
          then AList.update f (py_join newline (current_content st)) (files st)
          else files st)"

definition parse_line :: "parse_state \<Rightarrow> string \<Rightarrow> py_error + parse_state" where
  "parse_line st line =
     (if is_marker_line line then
        (case extract_filename markers line (current_file st) of
           Inl e \<Rightarrow> Inl e
         | Inr cur \<Rightarrow> Inr \<lparr>files = commit st, current_file = cur, current_content = []\<rparr>)
      else if prefix ''```'' (strip line) \<and> truthy (current_file st) then Inr st
      else if truthy (current_file st)
        then Inr (st\<lparr>current_content := current_content st @ [line]\<rparr>)
      else Inr st)"

fun parse_lines :: "parse_state \<Rightarrow> string list \<Rightarrow> py_error + parse_state" where
  "parse_lines st [] = Inr st"
| "parse_lines st (line # ls) =
     (case parse_line st line of
        Inl e \<Rightarrow> Inl e
      | Inr st' \<Rightarrow> parse_lines st' ls)"

definition initial_state :: parse_state where
  "initial_state = \<lparr>files = [], current_file = None, current_content = []\<rparr>"

definition index_html_head :: string where
  \<open>index_html_head =
     ''<!DOCTYPE html>\<newline>'' @
     ''<html lang="en">\<newline>'' @
     ''<head>\<newline>'' @
     ''    <meta charset="UTF-8">\<newline>'' @
     ''    <meta name="viewport" content="width=device-width, initial-scale=1.0">\<newline>'' @
     ''    <title>Test Merchant Site</title>\<newline>'' @
     ''    <link rel="stylesheet" href="styles.css">\<newline>'' @
     ''</head>\<newline>'' @
     ''<body>\<newline>'' @
     ''    <h1>Test Merchant Website</h1>\<newline>'' @
     ''    <p>Generated content:</p>\<newline>'' @
     ''    <pre>''\<close>

definition index_html_tail :: string where
  \<open>index_html_tail =
     ''...</pre>\<newline>'' @
     ''    <script src="script.js"></script>\<newline>'' @
     ''</body>\<newline>'' @
     ''</html>''\<close>

definition styles_css :: string where
  \<open>styles_css =
     ''\<newline>'' @
     ''body {\<newline>'' @
     ''    font-family: Arial, sans-serif;\<newline>'' @
     ''    margin: 0;\<newline>'' @
     ''    padding: 20px;\<newline>'' @
     ''    background-color: #f5f5f5;\<newline>'' @
     ''}\<newline>'' @
     ''\<newline>'' @
     ''h1 {\<newline>'' @
     ''    color: #333;\<newline>'' @
     ''    text-align: center;\<newline>'' @
     ''}\<newline>'' @
     ''\<newline>'' @
     ''pre {\<newline>'' @
     ''    background: #fff;\<newline>'' @
     ''    padding: 15px;\<newline>'' @
     ''    border-radius: 5px;\<newline>'' @
     ''    box-shadow: 0 2px 5px rgba(0,0,0,0.1);\<newline>'' @
     ''}''\<close>

definition script_js :: string where
  \<open>script_js =
     ''\<newline>'' @
     ''// Basic anti-crawler functionality\<newline>'' @
     ''console.log('Website loaded');\<newline>'' @
     ''\<newline>'' @
     ''// Simple rate limiting\<newline>'' @
     ''let requestCount = 0;\<newline>'' @
     ''const MAX_REQUESTS = 10;\<newline>'' @
     ''\<newline>'' @
     ''function checkRateLimit() {\<newline>'' @
     ''    requestCount++;\<newline>'' @
     ''    if (requestCount > MAX_REQUESTS) {\<newline>'' @
     ''        alert('Too many requests!');\<newline>'' @
     ''        return false;\<newline>'' @
     ''    }\<newline>'' @
     ''    return true;\<newline>'' @
     ''}\<newline>'' @
     ''\<newline>'' @
     ''// User agent detection\<newline>'' @
     ''if (navigator.userAgent.includes('bot') || navigator.userAgent.includes('crawler')) {\<newline>'' @
     ''    console.warn('Bot detected!');\<newline>'' @
     ''}''\<close>

text \<open>
  \<open>_create_default_website_structure\<close>: the f-string of \<open>index.html\<close> is
  \<^const>\<open>index_html_head\<close>, then \<open>content[:1000]\<close>, then \<^const>\<open>index_html_tail\<close>.
\<close>

definition create_default_website_structure :: "string \<Rightarrow> file_set" where
  "create_default_website_structure content =
     [(''index.html'', index_html_head @ take 1000 content @ index_html_tail),
      (''styles.css'', styles_css),
      (''script.js'', script_js)]"

definition parse_generated_content :: "string \<Rightarrow> py_error + file_set" where
  "parse_generated_content response =
     (case parse_lines initial_state (py_split newline response) of
        Inl e \<Rightarrow> Inl e
      | Inr st \<Rightarrow>
          (let fs = commit st
           in Inr (if fs = [] then create_default_website_structure response else fs)))"

section \<open>Filesystem and network, as the program sees them\<close>

text \<open>
  A \<open>pathlib.Path\<close> is the list of its parts below the filesystem root (a relative path
  is taken with the parts of the working directory in front); \<open>..\<close> parts stay in the
  path, as \<open>pathlib\<close> keeps them. A location is a path that the kernel has resolved: it
  has no \<open>..\<close> part. The filesystem has no symbolic links and no permissions.
\<close>

type_synonym path = "string list"

record filesystem =
  is_dir :: "string list \<Rightarrow> bool"
  file_content :: "string list \<Rightarrow> string option"

text \<open>\<open>PurePath\<close> parsing of a string: empty parts and \<open>.\<close> parts are dropped.\<close>

definition path_parts :: "string \<Rightarrow> path" where
  "path_parts name = filter (\<lambda>part. part \<noteq> [] \<and> part \<noteq> ''.'') (py_split ''/'' name)"

text \<open>\<open>p / name\<close>: an absolute \<open>name\<close> replaces \<open>p\<close>.\<close>

definition path_join :: "path \<Rightarrow> string \<Rightarrow> path" where
  "path_join p name = (if prefix ''/'' name then path_parts name else p @ path_parts name)"

text \<open>\<open>p.parent\<close>; the parent of the root is the root.\<close>

definition parent :: "path \<Rightarrow> path" where
  "parent p = butlast p"

text \<open>
  Path resolution by the kernel: every part is applied to a directory that exists
  (\<open>ENOENT\<close> or \<open>ENOTDIR\<close> otherwise); \<open>..\<close> goes to the parent directory, and stays at
  the root there. The location reached by the last part need not exist.
\<close>

fun walk :: "filesystem \<Rightarrow> string list \<Rightarrow> path \<Rightarrow> py_error + string list" where
  "walk fs cur [] = Inr cur"
| "walk fs cur (part # ps) =
     (if is_dir fs cur then walk fs (if part = ''..'' then butlast cur else cur @ [part]) ps
      else if file_content fs cur \<noteq> None then Inl NotADirectoryError
      else Inl FileNotFoundError)"

definition locate :: "filesystem \<Rightarrow> path \<Rightarrow> py_error + string list" where
  "locate fs p = walk fs [] p"

text \<open>\<open>Path.exists()\<close> and \<open>Path.is_dir()\<close>: false when the path does not resolve.\<close>

definition path_exists :: "filesystem \<Rightarrow> path \<Rightarrow> bool" where
  "path_exists fs p =
     (case locate fs p of
        Inl e \<Rightarrow> False
      | Inr loc \<Rightarrow> is_dir fs loc \<or> file_content fs loc \<noteq> None)"

definition path_is_dir :: "filesystem \<Rightarrow> path \<Rightarrow> bool" where
  "path_is_dir fs p = (case locate fs p of Inl e \<Rightarrow> False | Inr loc \<Rightarrow> is_dir fs loc)"

text \<open>\<open>os.mkdir(p)\<close>.\<close>

definition os_mkdir :: "filesystem \<Rightarrow> path \<Rightarrow> py_error + filesystem" where
  "os_mkdir fs p =
     (case locate fs p of
        Inl e \<Rightarrow> Inl e
      | Inr loc \<Rightarrow>
          if is_dir fs loc \<or> file_content fs loc \<noteq> None then Inl FileExistsError
          else Inr (fs\<lparr>is_dir := (is_dir fs)(loc := True)\<rparr>))"

text \<open>
  \<open>Path.mkdir(exist_ok=True)\<close>: \<open>FileNotFoundError\<close> is raised again (\<open>parents\<close> is
  false); any other \<open>OSError\<close> is ignored when the path is a directory.
\<close>

definition mkdir_exist_ok :: "path \<Rightarrow> filesystem \<Rightarrow> py_error + filesystem" where
  "mkdir_exist_ok p fs =
     (case os_mkdir fs p of
        Inr fs' \<Rightarrow> Inr fs'
      | Inl FileNotFoundError \<Rightarrow> Inl FileNotFoundError
      | Inl e \<Rightarrow> if path_is_dir fs p then Inr fs else Inl e)"

text \<open>
  \<open>Path.mkdir(parents=True, exist_ok=True)\<close>: on \<open>FileNotFoundError\<close> the parent is
  made the same way and \<open>mkdir\<close> is tried once more without \<open>parents\<close>. The directories
  made before a failure stay.
\<close>

function mkdir_parents :: "path \<Rightarrow> filesystem \<Rightarrow> py_error option \<times> filesystem" where
  "mkdir_parents p fs =
     (case os_mkdir fs p of
        Inr fs' \<Rightarrow> (None, fs')
      | Inl FileNotFoundError \<Rightarrow>
          if parent p = p then (Some FileNotFoundError, fs)
          else (case mkdir_parents (parent p) fs of
                  (Some e, fs1) \<Rightarrow> (Some e, fs1)
                | (None, fs1) \<Rightarrow>
                    (case mkdir_exist_ok p fs1 of
                       Inl e \<Rightarrow> (Some e, fs1)
                     | Inr fs2 \<Rightarrow> (None, fs2)))
      | Inl e \<Rightarrow> if path_is_dir fs p then (None, fs) else (Some e, fs))"
  by pat_completeness auto
termination
proof (relation "measure (\<lambda>(p, fs). length p)")
  show "wf (measure (\<lambda>(p, fs). length p))" by simp
next
  fix p :: path and fs :: filesystem
  assume "parent p \<noteq> p"
  then have "p \<noteq> []" by (auto simp: parent_def)
  then show "((parent p, fs), (p, fs)) \<in> measure (\<lambda>(p, fs). length p)"
    by (simp add: parent_def)
qed

declare mkdir_parents.simps [simp del]

text \<open>
  \<open>shutil.rmtree(p)\<close>: the directory and everything below it goes. The root directory
  itself cannot be removed.
\<close>

definition rmtree :: "path \<Rightarrow> filesystem \<Rightarrow> py_error + filesystem" where
  "rmtree p fs =
     (case locate fs p of
        Inl e \<Rightarrow> Inl e
      | Inr loc \<Rightarrow>
          if loc = [] then Inl (OSError ''Device or resource busy'')
          else if is_dir fs loc then
            Inr (fs\<lparr>is_dir := (\<lambda>q. is_dir fs q \<and> \<not> prefix loc q),
                    file_content := (\<lambda>q. if prefix loc q then None else file_content fs q)\<rparr>)
          else if file_content fs loc \<noteq> None then Inl NotADirectoryError
          else Inl FileNotFoundError)"

text \<open>\<open>with open(p, 'w') as f: f.write(content)\<close>.\<close>

definition write_text :: "path \<Rightarrow> string \<Rightarrow> filesystem \<Rightarrow> py_error + filesystem" where
  "write_text p content fs =
     (case locate fs p of
        Inl e \<Rightarrow> Inl e
      | Inr loc \<Rightarrow>
          if is_dir fs loc then Inl IsADirectoryError
          else Inr (fs\<lparr>file_content := (file_content fs)(loc \<mapsto> content)\<rparr>))"

text \<open>
  The TCP ports of \<open>localhost\<close>: \<open>accepts p\<close> when a connection to port \<open>p\<close> succeeds,
  \<open>in_use p\<close> when a bind to port \<open>p\<close> fails with \<open>EADDRINUSE\<close>.
\<close>

record network =
  accepts :: "int \<Rightarrow> bool"
  in_use :: "int \<Rightarrow> bool"

text \<open>
  \<open>sock.connect_ex(('localhost', port))\<close>: the error number, 0 on success and
  \<open>ECONNREFUSED\<close> (111) otherwise; a port outside 0..65535 raises \<open>OverflowError\<close>.
\<close>

definition connect_ex :: "network \<Rightarrow> int \<Rightarrow> py_error + int" where
  "connect_ex net port =
     (if port < 0 \<or> 65535 < port then Inl OverflowError
      else Inr (if accepts net port then 0 else 111))"

text \<open>
  \<open>HTTPServer(('localhost', port), handler)\<close>: binds and listens. (Port 0 would ask the
  kernel for any free port; \<open>start_local_server\<close> never passes it.)
\<close>

definition http_server_bind :: "network \<Rightarrow> int \<Rightarrow> py_error + network" where
  "http_server_bind net port =
     (if port < 0 \<or> 65535 < port then Inl OverflowError
      else if in_use net port then Inl (OSError ''Address already in use'')
      else Inr (net\<lparr>accepts := (accepts net)(port := True),
                     in_use := (in_use net)(port := True)\<rparr>))"


section \<open>Local web server (\<open>environment_builder.py\<close>)\<close>

text \<open>
  \<open>server\<close> is the port of the bound \<open>HTTPServer\<close> object, \<open>None\<close> before \<open>start\<close>. The
  serving thread is not part of the model.
\<close>

record local_web_server =
  directory :: path
  port :: int
  server :: "int option"
  is_running :: bool

definition new_local_web_server :: "path \<Rightarrow> int \<Rightarrow> local_web_server" where
  "new_local_web_server dir p = \<lparr>directory = dir, port = p, server = None, is_running = False\<rparr>"

function find_free_port :: "network \<Rightarrow> int \<Rightarrow> py_error + int" where
  "find_free_port net p =
     (if p < 65535 then
        (case connect_ex net p of
           Inl e \<Rightarrow> Inl e
         | Inr rc \<Rightarrow> if rc \<noteq> 0 then Inr p else find_free_port net (p + 1))
      else Inl (RuntimeError ''No free ports available''))"
  by pat_completeness auto
termination
  by (relation "measure (\<lambda>(net, p). nat (65535 - p))") auto

declare find_free_port.simps [simp del]

text \<open>
  \<open>LocalWebServer.start\<close>. The bare \<open>except: pass\<close> around the probe keeps the port when
  the probe or \<open>find_free_port\<close> raises.
\<close>

definition server_start ::
  "local_web_server \<Rightarrow> network \<Rightarrow> (py_error + int) \<times> local_web_server \<times> network" where
  "server_start srv net =
     (if is_running srv then (Inr (port srv), srv, net)
      else
        (let srv1 =
               (case connect_ex net (port srv) of
                  Inl e \<Rightarrow> srv
                | Inr rc \<Rightarrow>
                    if rc = 0 then
                      (case find_free_port net (port srv + 1) of
                         Inl e \<Rightarrow> srv
                       | Inr p \<Rightarrow> srv\<lparr>port := p\<rparr>)
                    else srv)
         in (case http_server_bind net (port srv1) of
               Inl e \<Rightarrow> (Inl (RuntimeError ''Failed to start server''), srv1, net)
             | Inr net' \<Rightarrow>
                 (Inr (port srv1), srv1\<lparr>server := Some (port srv1), is_running := True\<rparr>, net'))))"


text \<open>\<open>str(n)\<close> for an integer, and the f-string \<open>http://localhost:{port}\<close>.\<close>

fun str_nat :: "nat \<Rightarrow> string" where
  "str_nat n = (if n < 10 then [''0123456789'' ! n]
                else str_nat (n div 10) @ [''0123456789'' ! (n mod 10)])"

declare str_nat.simps [simp del]

definition str_int :: "int \<Rightarrow> string" where
  "str_int i = (if i < 0 then ''-'' @ str_nat (nat (- i)) else str_nat (nat i))"

definition localhost_url :: "int \<Rightarrow> string" where
  "localhost_url p = ''http://localhost:'' @ str_int p"

definition get_url :: "local_web_server \<Rightarrow> string option" where
  "get_url srv = (if is_running srv then Some (localhost_url (port srv)) else None)"

section \<open>Environment builder (\<open>environment_builder.py\<close>)\<close>

text \<open>
  The builder with the world it acts on. A method returns what it returns or raises,
  and the state it leaves: a raise does not undo the statements before it.
\<close>

record env_state =
  base_directory :: path
  active_servers :: "(string \<times> local_web_server) list"
  fs :: filesystem
  net :: network

text \<open>
  A sequence of statements on the filesystem: the first one that raises ends it, with
  the filesystem as the statements before left it.
\<close>

fun run_stmts ::
  "(filesystem \<Rightarrow> py_error + filesystem) list \<Rightarrow> filesystem \<Rightarrow> py_error option \<times> filesystem" where
  "run_stmts [] f = (None, f)"
| "run_stmts (stmt # rest) f =
     (case stmt f of
        Inl e \<Rightarrow> (Some e, f)
      | Inr f' \<Rightarrow> run_stmts rest f')"

text \<open>The six fixed subdirectories of an environment.\<close>

definition skeleton :: "string list" where
  "skeleton = [''static'', ''templates'', ''assets'', ''css'', ''js'', ''images'']"

definition create_test_environment ::
  "env_state \<Rightarrow> string \<Rightarrow> bool \<Rightarrow> (py_error + path) \<times> env_state" where
  "create_test_environment st name clean =
     (let env_path = path_join (base_directory st) name in
      (case run_stmts
              [\<lambda>f. if path_exists f env_path \<and> clean then rmtree env_path f else Inr f,
               mkdir_exist_ok env_path,
               mkdir_exist_ok (path_join env_path ''static''),
               mkdir_exist_ok (path_join env_path ''templates''),
               mkdir_exist_ok (path_join env_path ''assets''),
               mkdir_exist_ok (path_join env_path ''css''),
               mkdir_exist_ok (path_join env_path ''js''),
               mkdir_exist_ok (path_join env_path ''images'')]
              (fs st) of
         (Some e, f) \<Rightarrow> (Inl e, st\<lparr>fs := f\<rparr>)
       | (None, f) \<Rightarrow> (Inr env_path, st\<lparr>fs := f\<rparr>)))"

text \<open>\<open>create_website_files\<close>: the loop over \<open>website_content.items()\<close>.\<close>

fun write_website_files :: "path \<Rightarrow> file_set \<Rightarrow> filesystem \<Rightarrow> py_error option \<times> filesystem" where
  "write_website_files env_path [] f = (None, f)"
| "write_website_files env_path ((filename, content) # rest) f =
     (let file_path = path_join env_path filename in
      (case mkdir_parents (parent file_path) f of
         (Some e, f1) \<Rightarrow> (Some e, f1)
       | (None, f1) \<Rightarrow>
           (case write_text file_path content f1 of
              Inl e \<Rightarrow> (Some e, f1)
            | Inr f2 \<Rightarrow> write_website_files env_path rest f2)))"

definition create_website_files ::
  "env_state \<Rightarrow> path \<Rightarrow> file_set \<Rightarrow> (py_error + unit) \<times> env_state" where
  "create_website_files st env_path website_content =
     (case write_website_files env_path website_content (fs st) of
        (Some e, f) \<Rightarrow> (Inl e, st\<lparr>fs := f\<rparr>)
      | (None, f) \<Rightarrow> (Inr (), st\<lparr>fs := f\<rparr>))"

text \<open>\<open>port or 8000\<close>: \<open>None\<close> and 0 are false.\<close>

definition port_or_default :: "int option \<Rightarrow> int" where
  "port_or_default p = (case p of None \<Rightarrow> 8000 | Some n \<Rightarrow> if n = 0 then 8000 else n)"

definition start_local_server ::
  "env_state \<Rightarrow> string \<Rightarrow> int option \<Rightarrow> (py_error + string option) \<times> env_state" where
  "start_local_server st env_name p =
     (let env_path = path_join (base_directory st) env_name in
      if \<not> path_exists (fs st) env_path
        then (Inl (ValueError ''Environment does not exist''), st)
      else
        (case map_of (active_servers st) env_name of
           Some srv \<Rightarrow> (Inr (get_url srv), st)
         | None \<Rightarrow>
             (case server_start (new_local_web_server env_path (port_or_default p)) (net st) of
                (Inl e, srv, net') \<Rightarrow> (Inl e, st\<lparr>net := net'\<rparr>)
              | (Inr actual_port, srv, net') \<Rightarrow>
                  (Inr (Some (localhost_url actual_port)),
                   st\<lparr>active_servers := AList.update env_name srv (active_servers st),
                      net := net'\<rparr>))))"



section \<open>Generation and deployment (\<open>website_generator.py\<close>)\<close>

text \<open>
  What the orchestrator takes from outside: the prompt store (\<open>get_prompt\<close>, a
  \<open>KeyError\<close> when the name is unknown), the text-generation backend (\<open>generate_text\<close>
  on the prompt and the system prompt; temperature and token limit are constants of the
  call), the working directory as \<open>str(Path().resolve())\<close> gives it, \<open>json.dump\<close> with
  \<open>indent=2\<close>, and \<open>random.randint\<close>.
\<close>

type_synonym metadata = "(string \<times> string option) list"

record collaborators =
  get_prompt :: "string \<Rightarrow> py_error + string"
  generate_text :: "string \<Rightarrow> string \<Rightarrow> py_error + string"
  resolved_cwd :: string
  json_dump :: "metadata \<Rightarrow> string"
  randint :: "int \<Rightarrow> int \<Rightarrow> int"

record website_data =
  wd_files :: file_set
  wd_metadata :: metadata
  raw_response :: string

record deployment =
  dp_website_data :: website_data
  server_url :: "string option"
  environment_name :: string
  success :: bool

definition generation_instructions :: string where
  \<open>generation_instructions =
     ''\<newline>'' @
     ''\<newline>'' @
     ''Please generate a complete, functional website based on the user's request. Include:\<newline>'' @
     ''1. HTML files (at minimum index.html, plus any other pages that make sense)\<newline>'' @
     ''2. CSS file for styling\<newline>'' @
     ''3. JavaScript file for functionality\<newline>'' @
     ''4. Any data files (JSON/XML) if needed for content\<newline>'' @
     ''5. robots.txt if appropriate\<newline>'' @
     ''\<newline>'' @
     ''Make the website realistic and functional for testing purposes.\<newline>'' @
     ''''\<close>

definition default_system_prompt :: string where
  \<open>default_system_prompt =
     ''\<newline>'' @
     ''        You are an expert web developer specializing in creating realistic e-commerce websites for testing purposes.\<newline>'' @
     ''\<newline>'' @
     ''        Your task is to generate complete, functional websites with the following characteristics:\<newline>'' @
     ''        - Realistic product listings and data\<newline>'' @
     ''        - Professional styling and layout\<newline>'' @
     ''        - Implement specified anti-crawler methods effectively\<newline>'' @
     ''        - Include multiple pages (home, products, about, contact)\<newline>'' @
     ''        - Use modern web technologies (HTML5, CSS3, JavaScript)\<newline>'' @
     ''        - Make the website look and feel like a real merchant site\<newline>'' @
     ''\<newline>'' @
     ''        Anti-crawler methods to implement when requested:\<newline>'' @
     ''        - rate_limiting: Add JavaScript to track request frequency\<newline>'' @
     ''        - user_agent_detection: Check for common bot user agents\<newline>'' @
     ''        - javascript_rendering: Require JS to load content\<newline>'' @
     ''        - captcha_challenges: Add CAPTCHA-like challenges\<newline>'' @
     ''        - dynamic_content_loading: Load content dynamically with AJAX\<newline>'' @
     ''        - session_tracking: Track user sessions\<newline>'' @
     ''        - ip_blocking: Simulate IP-based blocking\<newline>'' @
     ''        - honeypot_links: Add hidden links to catch bots\<newline>'' @
     ''\<newline>'' @
     ''        Return the complete code for each file clearly separated and labeled.\<newline>'' @
     ''        ''\<close>

text \<open>Truth value of an \<open>Optional[str]\<close>: \<open>None\<close> and the empty string are false.\<close>

definition generate_website_from_prompt ::
  "collaborators \<Rightarrow> string \<Rightarrow> string option \<Rightarrow> py_error + website_data" where
  "generate_website_from_prompt co user_prompt additional_requirements =
     (case (case get_prompt co ''flexible_website_generator'' of
              Inl KeyError \<Rightarrow> Inr default_system_prompt
            | Inl e \<Rightarrow> Inl e
            | Inr sp \<Rightarrow> Inr sp) of
        Inl e \<Rightarrow> Inl e
      | Inr system_prompt \<Rightarrow>
          (let full_prompt =
                 ''User Request: '' @ user_prompt
                 @ (case additional_requirements of
                      None \<Rightarrow> []
                    | Some req \<Rightarrow>
                        if req \<noteq> [] then ''\<newline>\<newline>Additional Requirements: '' @ req else [])
                 @ generation_instructions
           in (case generate_text co full_prompt system_prompt of
                 Inl e \<Rightarrow> Inl (GenerationError ''Failed to generate website'')
               | Inr response \<Rightarrow>
                   (case parse_generated_content response of
                      Inl e \<Rightarrow> Inl (GenerationError ''Failed to generate website'')
                    | Inr website_files \<Rightarrow>
                        Inr \<lparr>wd_files = website_files,
                             wd_metadata =
                               [(''user_prompt'', Some user_prompt),
                                (''additional_requirements'', additional_requirements),
                                (''generation_timestamp'', Some (resolved_cwd co))],
                             raw_response = response\<rparr>))))"

text \<open>\<open>f"{value}"\<close> of a metadata value: \<open>None\<close> prints as \<open>None\<close>.\<close>

definition format_value :: "string option \<Rightarrow> string" where
  "format_value v = (case v of None \<Rightarrow> ''None'' | Some s \<Rightarrow> s)"

text \<open>
  \<open>deploy_to_local_environment\<close>. The name made up when \<open>env_name\<close> is \<open>None\<close> is a
  local variable: the caller does not get it.
\<close>

definition deploy_to_local_environment ::
  "collaborators \<Rightarrow> env_state \<Rightarrow> website_data \<Rightarrow> string option \<Rightarrow> int option
     \<Rightarrow> (py_error + string option) \<times> env_state" where
  "deploy_to_local_environment co st data env_name p =
     (let env_name' =
            (case env_name of
               None \<Rightarrow>
                 (let merchant_type =
                        (case map_of (wd_metadata data) ''merchant_type'' of
                           None \<Rightarrow> ''merchant''
                         | Some v \<Rightarrow> format_value v)
                  in merchant_type @ ''_test_'' @ str_int (randint co 1000 9999))
             | Some n \<Rightarrow> n)
      in (case create_test_environment st env_name' True of
            (Inl e, st1) \<Rightarrow> (Inl e, st1)
          | (Inr env_path, st1) \<Rightarrow>
              (case create_website_files st1 env_path (wd_files data) of
                 (Inl e, st2) \<Rightarrow> (Inl e, st2)
               | (Inr u, st2) \<Rightarrow>
                   (case write_text (path_join env_path ''metadata.json'')
                           (json_dump co (wd_metadata data)) (fs st2) of
                      Inl e \<Rightarrow> (Inl e, st2)
                    | Inr f \<Rightarrow> start_local_server (st2\<lparr>fs := f\<rparr>) env_name' p))))"

definition generate_and_deploy ::
  "collaborators \<Rightarrow> env_state \<Rightarrow> string \<Rightarrow> string option \<Rightarrow> string option \<Rightarrow> int option
     \<Rightarrow> (py_error + deployment) \<times> env_state" where
  "generate_and_deploy co st user_prompt additional_requirements env_name p =
     (case generate_website_from_prompt co user_prompt additional_requirements of
        Inl e \<Rightarrow> (Inl e, st)
      | Inr data \<Rightarrow>
          (case deploy_to_local_environment co st data env_name p of
             (Inl e, st') \<Rightarrow> (Inl e, st')
           | (Inr url, st') \<Rightarrow>
               (Inr \<lparr>dp_website_data = data,
                     server_url = url,
                     environment_name =
                       (case env_name of
                          None \<Rightarrow> ''generated_test''
                        | Some n \<Rightarrow> if n \<noteq> [] then n else ''generated_test''),
                     success = True\<rparr>,
                st')))"

section \<open>Notions used in the statements\<close>

text \<open>
  A line that the scan skips inside a file, the lines of a block that reach the buffer,
  and the file name that a marker line gives.
\<close>

definition is_fence :: "string \<Rightarrow> bool" where
  "is_fence line = prefix ''```'' (strip line)"

definition content_lines :: "string list \<Rightarrow> string list" where
  "content_lines body = filter (\<lambda>line. \<not> is_fence line) body"

definition marker_name :: "string \<Rightarrow> string" where
  "marker_name line =
     (case extract_filename markers line None of
        Inr (Some f) \<Rightarrow> f
      | _ \<Rightarrow> [])"

text \<open>
  Marker blocks in a list of lines: a marker line naming \<open>k\<close> followed by the lines
  \<open>body\<close> without a marker, closed when a further marker line follows and open when
  the list ends there. \<open>scan_inv ls st\<close> is what the scan has established in state
  \<open>st\<close> after the lines \<open>ls\<close>.
\<close>

definition closed_block :: "string list \<Rightarrow> string \<Rightarrow> string list \<Rightarrow> bool" where
  "closed_block ls k body =
     (\<exists>pre m post. ls = pre @ [m] @ body @ post \<and> is_marker_line m \<and> marker_name m = k
        \<and> (\<forall>line \<in> set body. \<not> is_marker_line line)
        \<and> post \<noteq> [] \<and> is_marker_line (hd post))"

definition open_block :: "string list \<Rightarrow> string \<Rightarrow> string list \<Rightarrow> bool" where
  "open_block ls k body =
     (\<exists>pre m. ls = pre @ [m] @ body \<and> is_marker_line m \<and> marker_name m = k
        \<and> (\<forall>line \<in> set body. \<not> is_marker_line line))"

definition scan_inv :: "string list \<Rightarrow> parse_state \<Rightarrow> bool" where
  "scan_inv ls st =
     ((\<forall>(k, v) \<in> set (files st).
          k \<noteq> [] \<and> (\<exists>body. closed_block ls k body \<and> content_lines body \<noteq> []
                          \<and> v = py_join newline (content_lines body)))
      \<and> (\<forall>f. current_file st = Some f \<longrightarrow>
            (\<exists>body. open_block ls f body
               \<and> current_content st = (if f = [] then [] else content_lines body)))
      \<and> (current_file st = None \<longrightarrow> current_content st = []))"








section \<open>A small world for concrete runs\<close>

text \<open>
  The working directory \<open>/work\<close> with the base directory \<open>test_environments\<close> and one
  environment \<open>shop\<close> in it; no file, no server, no port taken.
\<close>

definition demo_fs :: filesystem where
  "demo_fs =
     \<lparr>is_dir = (\<lambda>q. q \<in> set [[], [''work''], [''work'', ''test_environments''],
                               [''work'', ''test_environments'', ''shop'']]),
      file_content = (\<lambda>q. None)\<rparr>"

definition demo_state :: env_state where
  "demo_state =
     \<lparr>base_directory = [''work'', ''test_environments''],
      active_servers = [],
      fs = demo_fs,
      net = \<lparr>accepts = (\<lambda>p. False), in_use = (\<lambda>p. False)\<rparr>\<rparr>"



text \<open>The same world with a file left in \<open>shop\<close> by an earlier run.\<close>

definition demo_stale :: env_state where
  "demo_stale =
     demo_state\<lparr>fs := demo_fs\<lparr>file_content :=
        [[''work'', ''test_environments'', ''shop'', ''old.html''] \<mapsto> ''<p>old</p>'']\<rparr>\<rparr>"

text \<open>
  Collaborators for a run: no stored prompt, a backend that answers with one marked
  file, and 4242 as the random number.
\<close>

definition demo_collaborators :: collaborators where
  "demo_collaborators =
     \<lparr>get_prompt = (\<lambda>name. Inl KeyError),
      generate_text = (\<lambda>prompt system_prompt. Inr ''File: index.html\<newline><h1>Hi</h1>''),
      resolved_cwd = ''/work'',
      json_dump = (\<lambda>m. ''{}''),
      randint = (\<lambda>lo hi. 4242)\<rparr>"

section \<open>Properties of the content parser\<close>

lemma parse_lines_no_marker:
  assumes "\<forall>line \<in> set ls. \<not> is_marker_line line" and "current_file st = None"
  shows "parse_lines st ls = Inr st"
  using assms by (induction ls) (simp_all add: parse_line_def)

text \<open>
  Claim C3. When no line of the response holds a marker substring (compared in lower
  case), \<open>_parse_generated_content\<close> raises nothing and returns the default file set:
  exactly the keys \<open>index.html\<close>, \<open>styles.css\<close>, \<open>script.js\<close> in this order, where
  \<open>index.html\<close> is the fixed head ending in \<open><pre>\<close>, then the first 1000 characters of
  the response, then the fixed tail starting with \<open>...</pre>\<close>.
\<close>

theorem parse_fallback_default:
  assumes "\<forall>line \<in> set (py_split newline response). \<not> is_marker_line line"
  shows "parse_generated_content response =
           Inr [(''index.html'', index_html_head @ take 1000 response @ index_html_tail),
                (''styles.css'', styles_css),
                (''script.js'', script_js)]
         \<and> suffix ''<pre>'' index_html_head
         \<and> prefix ''...</pre>'' index_html_tail"
proof -
  have "parse_lines initial_state (py_split newline response) = Inr initial_state"
    using assms by (intro parse_lines_no_marker) (simp_all add: initial_state_def)
  moreover have "commit initial_state = []"
    by (simp add: commit_def initial_state_def)
  moreover have "suffix ''<pre>'' index_html_head"
    unfolding index_html_head_def by (simp add: suffix_def)
  moreover have "prefix ''...</pre>'' index_html_tail"
    unfolding index_html_tail_def by simp
  ultimately show ?thesis
    by (simp add: parse_generated_content_def create_default_website_structure_def)
qed

theorem parse_fallback_default_witness:
  "parse_generated_content ''<h1>Shop</h1>\<newline>no files here'' =
     Inr [(''index.html'',
           index_html_head @ ''<h1>Shop</h1>\<newline>no files here'' @ index_html_tail),
          (''styles.css'', styles_css),
          (''script.js'', script_js)]"
proof -
  have "\<forall>line \<in> set (py_split newline ''<h1>Shop</h1>\<newline>no files here'').
          \<not> is_marker_line line"
    by (simp add: py_split.simps newline_def is_marker_line_def markers_def lower_def
        is_upper_def)
  from parse_fallback_default [OF this] show ?thesis
    by simp
qed

lemmas parse_eval =
  parse_generated_content_def py_split.simps newline_def initial_state_def parse_line_def
  is_marker_line_def markers_def lower_def is_upper_def commit_def strip_def isspace_def
  py_replace.simps

lemma py_in_find_sep: "py_in sep s \<longleftrightarrow> find_sep sep s \<noteq> None"
  by (induction s) (auto split: option.splits)

lemma py_split_two:
  assumes "sep \<noteq> []" and "py_in sep s"
  shows "\<exists>b x rest. py_split sep s = b # x # rest"
proof -
  from assms(2) obtain b a where found: "find_sep sep s = Some (b, a)"
    by (auto simp: py_in_find_sep)
  have "py_split sep a \<noteq> []"
    by (subst py_split.simps) (simp split: option.splits)
  then obtain x rest where "py_split sep a = x # rest"
    by (cases "py_split sep a") auto
  with assms(1) found show ?thesis
    by (simp add: py_split.simps [of sep s])
qed

lemma extract_filename_found:
  assumes "list_ex (\<lambda>marker. py_in marker (lower line)) ms" and "[] \<notin> set ms"
  shows "\<exists>f. \<forall>cur. extract_filename ms line cur = Inr (Some f)"
  using assms
proof (induction ms)
  case Nil
  then show ?case by simp
next
  case (Cons marker ms)
  show ?case
  proof (cases "py_in marker (lower line)")
    case True
    from Cons.prems(2) have "marker \<noteq> []" by auto
    from py_split_two [OF this True] obtain b x rest
      where "py_split marker (lower line) = b # x # rest" by blast
    with True show ?thesis by simp
  next
    case False
    with Cons show ?thesis by simp
  qed
qed

lemma extract_filename_marker:
  assumes "is_marker_line line"
  shows "extract_filename markers line cur = Inr (Some (marker_name line))"
proof -
  have "[] \<notin> set markers"
    by (simp add: markers_def)
  with assms obtain f where f: "\<forall>cur. extract_filename markers line cur = Inr (Some f)"
    using extract_filename_found [of line markers] by (auto simp: is_marker_line_def)
  then have "marker_name line = f"
    by (simp add: marker_name_def)
  with f show ?thesis by simp
qed

lemma parse_line_marker:
  assumes "is_marker_line line"
  shows "parse_line st line =
           Inr \<lparr>files = commit st, current_file = Some (marker_name line), current_content = []\<rparr>"
  using assms by (simp add: parse_line_def extract_filename_marker)

lemma parse_line_other:
  assumes "\<not> is_marker_line line"
  shows "parse_line st line =
           Inr (if truthy (current_file st) \<and> \<not> is_fence line
                then st\<lparr>current_content := current_content st @ [line]\<rparr> else st)"
  using assms by (simp add: parse_line_def is_fence_def)

lemma parse_lines_append:
  "parse_lines st (xs @ ys) =
     (case parse_lines st xs of Inl e \<Rightarrow> Inl e | Inr st' \<Rightarrow> parse_lines st' ys)"
  by (induction xs arbitrary: st) (simp_all split: sum.splits)

lemma parse_lines_total: "\<exists>st'. parse_lines st ls = Inr st'"
proof (induction ls arbitrary: st)
  case Nil
  then show ?case by simp
next
  case (Cons line ls)
  obtain st1 where "parse_line st line = Inr st1"
    by (cases "is_marker_line line") (simp_all add: parse_line_marker parse_line_other)
  with Cons.IH [of st1] show ?case by simp
qed

lemma parse_lines_body:
  assumes "\<forall>line \<in> set body. \<not> is_marker_line line"
  shows "parse_lines st body =
           Inr (if truthy (current_file st)
                then st\<lparr>current_content := current_content st @ content_lines body\<rparr> else st)"
  using assms
proof (induction body arbitrary: st)
  case Nil
  then show ?case by (simp add: content_lines_def)
next
  case (Cons line body)
  then show ?case
    by (simp add: parse_line_other content_lines_def)
qed

lemma parse_lines_block:
  assumes "is_marker_line m" and "marker_name m \<noteq> []"
    and "\<forall>line \<in> set body. \<not> is_marker_line line"
  shows "parse_lines st (m # body) =
           Inr \<lparr>files = commit st, current_file = Some (marker_name m),
                current_content = content_lines body\<rparr>"
  using assms by (simp add: parse_line_marker parse_lines_body)


lemma map_of_commit_other:
  assumes "current_file st \<noteq> Some f"
  shows "map_of (commit st) f = map_of (files st) f"
  using assms by (auto simp: commit_def update_conv' split: option.splits)

lemma parse_lines_keeps_other:
  assumes "\<forall>line \<in> set ls. is_marker_line line \<longrightarrow> marker_name line \<noteq> f"
    and "current_file st \<noteq> Some f"
    and "parse_lines st ls = Inr st'"
  shows "current_file st' \<noteq> Some f \<and> map_of (files st') f = map_of (files st) f"
  using assms
proof (induction ls arbitrary: st)
  case Nil
  then show ?case by simp
next
  case (Cons line ls)
  show ?case
  proof (cases "is_marker_line line")
    case True
    let ?st1 = "\<lparr>files = commit st, current_file = Some (marker_name line), current_content = []\<rparr>"
    from True Cons.prems(3) have run: "parse_lines ?st1 ls = Inr st'"
      by (simp add: parse_line_marker)
    from True Cons.prems(1) have "current_file ?st1 \<noteq> Some f"
      by simp
    from Cons.IH [OF _ this run] Cons.prems(1,2) show ?thesis
      by (simp add: map_of_commit_other)
  next
    case False
    let ?st1 = "if truthy (current_file st) \<and> \<not> is_fence line
                then st\<lparr>current_content := current_content st @ [line]\<rparr> else st"
    from False Cons.prems(3) have run: "parse_lines ?st1 ls = Inr st'"
      by (simp add: parse_line_other)
    from Cons.prems(2) have "current_file ?st1 \<noteq> Some f"
      by simp
    from Cons.IH [OF _ this run] Cons.prems(1) show ?thesis
      by simp
  qed
qed

lemma block_then_rest:
  assumes cur: "current_file st = Some f" and "f \<noteq> []" and "current_content st \<noteq> []"
    and post: "post = [] \<or> is_marker_line (hd post)"
    and others: "\<forall>line \<in> set post. is_marker_line line \<longrightarrow> marker_name line \<noteq> f"
    and run: "parse_lines st post = Inr st'"
  shows "map_of (commit st') f = Some (py_join newline (current_content st))"
proof (cases post)
  case Nil
  with run have "st' = st" by simp
  with assms(1-3) show ?thesis
    by (simp add: commit_def update_conv')
next
  case (Cons line ls)
  with post have m: "is_marker_line line" by simp
  let ?st1 = "\<lparr>files = commit st, current_file = Some (marker_name line), current_content = []\<rparr>"
  from m run Cons have run1: "parse_lines ?st1 ls = Inr st'"
    by (simp add: parse_line_marker)
  from m others Cons have "current_file ?st1 \<noteq> Some f"
    by simp
  from parse_lines_keeps_other [OF _ this run1] others Cons
  have "current_file st' \<noteq> Some f" and "map_of (files st') f = map_of (commit st) f"
    by simp_all
  with assms(1-3) show ?thesis
    by (simp add: map_of_commit_other) (simp add: commit_def update_conv')
qed

text \<open>
  Claim C4, as the code has it. A block is stored only when its buffer is not empty:
  when the second of two blocks for \<open>a\<close> has no content line, the content of the first
  block stays under \<open>a\<close>.
\<close>

theorem empty_second_block_keeps_first:
  "py_split newline ''File: a\<newline>first\<newline>File: a'' = [''File: a'', ''first'', ''File: a'']
   \<and> is_marker_line ''File: a''
   \<and> marker_name ''File: a'' = ''a''
   \<and> parse_generated_content ''File: a\<newline>first\<newline>File: a'' = Inr [(''a'', ''first'')]"
  by (simp add: parse_eval marker_name_def)


text \<open>
  Claim C4, amended. Take two marker blocks that name the same non-empty file name,
  the second with at least one content line and being the last block of that name (what
  follows it is the end of the input or further marker blocks of other names). The
  parser raises nothing and stores under that name exactly the content lines of the
  second block joined by newlines: nothing of the first block remains.
\<close>

theorem last_marker_block_wins:
  assumes lines: "py_split newline response = pre @ [m1] @ body1 @ [m2] @ body2 @ post"
    and first: "is_marker_line m1" "marker_name m1 = f"
    and second: "is_marker_line m2" "marker_name m2 = f" "f \<noteq> []"
    and body: "\<forall>line \<in> set body2. \<not> is_marker_line line"
    and content: "content_lines body2 \<noteq> []"
    and post: "post = [] \<or> is_marker_line (hd post)"
    and others: "\<forall>line \<in> set post. is_marker_line line \<longrightarrow> marker_name line \<noteq> f"
  shows "\<exists>result. parse_generated_content response = Inr result
           \<and> map_of result f = Some (py_join newline (content_lines body2))"
proof -
  obtain st0 where s0: "parse_lines initial_state (pre @ [m1] @ body1) = Inr st0"
    using parse_lines_total by blast
  let ?st1 = "\<lparr>files = commit st0, current_file = Some f, current_content = content_lines body2\<rparr>"
  from second body have s1: "parse_lines st0 (m2 # body2) = Inr ?st1"
    using parse_lines_block [of m2 body2 st0] by simp
  obtain st' where s2: "parse_lines ?st1 post = Inr st'"
    using parse_lines_total by blast
  have "pre @ [m1] @ body1 @ [m2] @ body2 @ post = (pre @ [m1] @ body1) @ (m2 # body2) @ post"
    by simp
  with lines s0 s1 s2 have run: "parse_lines initial_state (py_split newline response) = Inr st'"
    by (simp only: parse_lines_append sum.case)
  from block_then_rest [OF _ second(3) _ post others s2] content
  have stored: "map_of (commit st') f = Some (py_join newline (content_lines body2))"
    by simp
  then have "commit st' \<noteq> []"
    by auto
  with run stored show ?thesis
    by (simp add: parse_generated_content_def)
qed

theorem last_marker_block_wins_witness:
  "\<exists>result. parse_generated_content ''File: a\<newline>first\<newline>File: a\<newline>second'' = Inr result
     \<and> map_of result ''a'' = Some ''second''"
proof -
  have lines: "py_split newline ''File: a\<newline>first\<newline>File: a\<newline>second''
                 = [] @ [''File: a''] @ [''first''] @ [''File: a''] @ [''second''] @ []"
    by (simp add: py_split.simps newline_def)
  have m: "is_marker_line ''File: a''"
    by (simp add: is_marker_line_def markers_def lower_def is_upper_def)
  have n: "marker_name ''File: a'' = ''a''"
    by (simp add: marker_name_def markers_def lower_def is_upper_def py_split.simps
        py_replace.simps strip_def isspace_def)
  have body: "\<forall>line \<in> set [''second'']. \<not> is_marker_line line"
    by (simp add: is_marker_line_def markers_def lower_def is_upper_def)
  have content: "content_lines [''second''] = [''second'']"
    by (simp add: content_lines_def is_fence_def strip_def isspace_def)
  then have filled: "content_lines [''second''] \<noteq> []"
    by simp
  have name: "''a'' \<noteq> []"
    by simp
  have post: "([] :: string list) = [] \<or> is_marker_line (hd [])"
    by simp
  have others: "\<forall>line \<in> set []. is_marker_line line \<longrightarrow> marker_name line \<noteq> ''a''"
    by simp
  from last_marker_block_wins [OF lines m n m n name body filled post others] content
  show ?thesis
    by simp
qed


lemma closed_block_snoc:
  assumes "closed_block ls k body"
  shows "closed_block (ls @ [line]) k body"
proof -
  from assms obtain pre m post where "ls = pre @ [m] @ body @ post" "is_marker_line m"
    "marker_name m = k" "\<forall>line \<in> set body. \<not> is_marker_line line" "post \<noteq> []"
    "is_marker_line (hd post)"
    by (auto simp: closed_block_def)
  then have "ls @ [line] = pre @ [m] @ body @ (post @ [line])
      \<and> is_marker_line m \<and> marker_name m = k \<and> (\<forall>line \<in> set body. \<not> is_marker_line line)
      \<and> post @ [line] \<noteq> [] \<and> is_marker_line (hd (post @ [line]))"
    by simp
  then show ?thesis
    unfolding closed_block_def by blast
qed

lemma open_block_close:
  assumes "open_block ls k body" and "is_marker_line line"
  shows "closed_block (ls @ [line]) k body"
proof -
  from assms(1) obtain pre m where "ls = pre @ [m] @ body" "is_marker_line m"
    "marker_name m = k" "\<forall>line \<in> set body. \<not> is_marker_line line"
    by (auto simp: open_block_def)
  with assms(2) have "ls @ [line] = pre @ [m] @ body @ [line]
      \<and> is_marker_line m \<and> marker_name m = k \<and> (\<forall>line \<in> set body. \<not> is_marker_line line)
      \<and> [line] \<noteq> [] \<and> is_marker_line (hd [line])"
    by simp
  then show ?thesis
    unfolding closed_block_def by blast
qed

lemma open_block_snoc:
  assumes "open_block ls k body" and "\<not> is_marker_line line"
  shows "open_block (ls @ [line]) k (body @ [line])"
proof -
  from assms(1) obtain pre m where "ls = pre @ [m] @ body" "is_marker_line m"
    "marker_name m = k" "\<forall>line \<in> set body. \<not> is_marker_line line"
    by (auto simp: open_block_def)
  with assms(2) have "ls @ [line] = pre @ [m] @ (body @ [line])
      \<and> is_marker_line m \<and> marker_name m = k
      \<and> (\<forall>l \<in> set (body @ [line]). \<not> is_marker_line l)"
    by simp
  then show ?thesis
    unfolding open_block_def by blast
qed

lemma open_block_new:
  assumes "is_marker_line line"
  shows "open_block (ls @ [line]) (marker_name line) []"
  unfolding open_block_def using assms by (intro exI [of _ ls] exI [of _ line]) simp

lemma set_update_subset: "set (AList.update k v al) \<subseteq> insert (k, v) (set al)"
  by (induction al) auto

lemma commit_entry:
  assumes "(k, v) \<in> set (commit st)"
  shows "(k, v) \<in> set (files st)
         \<or> (current_file st = Some k \<and> k \<noteq> [] \<and> current_content st \<noteq> []
            \<and> v = py_join newline (current_content st))"
  using assms set_update_subset [of _ _ "files st"]
  by (auto simp: commit_def split: option.splits if_splits)

lemma scan_inv_step:
  assumes inv: "scan_inv ls st" and step: "parse_line st line = Inr st'"
  shows "scan_inv (ls @ [line]) st'"
proof (cases "is_marker_line line")
  case True
  with step have st': "st' = \<lparr>files = commit st, current_file = Some (marker_name line),
                              current_content = []\<rparr>"
    by (simp add: parse_line_marker)
  have "k \<noteq> [] \<and> (\<exists>body. closed_block (ls @ [line]) k body \<and> content_lines body \<noteq> []
                        \<and> v = py_join newline (content_lines body))"
    if "(k, v) \<in> set (commit st)" for k v
    using commit_entry [OF that]
  proof
    assume "(k, v) \<in> set (files st)"
    with inv show ?thesis
      by (fastforce simp: scan_inv_def intro: closed_block_snoc)
  next
    assume cur: "current_file st = Some k \<and> k \<noteq> [] \<and> current_content st \<noteq> []
            \<and> v = py_join newline (current_content st)"
    with inv obtain body where "open_block ls k body" "current_content st = content_lines body"
      by (auto simp: scan_inv_def)
    with cur True show ?thesis
      by (auto intro: open_block_close)
  qed
  moreover have "open_block (ls @ [line]) (marker_name line) []"
    using True by (rule open_block_new)
  ultimately show ?thesis
    by (auto simp: scan_inv_def st' content_lines_def)
next
  case False
  with step have st': "st' = (if truthy (current_file st) \<and> \<not> is_fence line
                then st\<lparr>current_content := current_content st @ [line]\<rparr> else st)"
    by (simp add: parse_line_other)
  then have same: "files st' = files st" "current_file st' = current_file st"
    by simp_all
  have stored: "\<forall>(k, v) \<in> set (files st').
          k \<noteq> [] \<and> (\<exists>body. closed_block (ls @ [line]) k body \<and> content_lines body \<noteq> []
                          \<and> v = py_join newline (content_lines body))"
    using inv unfolding same scan_inv_def by (fastforce intro: closed_block_snoc)
  have cur: "\<exists>body. open_block (ls @ [line]) f body
               \<and> current_content st' = (if f = [] then [] else content_lines body)"
    if "current_file st' = Some f" for f
  proof -
    from that same have cf: "current_file st = Some f"
      by simp
    with inv obtain body where ob: "open_block ls f body"
      and cc: "current_content st = (if f = [] then [] else content_lines body)"
      by (auto simp: scan_inv_def)
    from ob False have "open_block (ls @ [line]) f (body @ [line])"
      by (rule open_block_snoc)
    moreover from cf cc
    have "current_content st' = (if f = [] then [] else content_lines (body @ [line]))"
      by (simp add: st' content_lines_def)
    ultimately show ?thesis by blast
  qed
  have none: "current_file st' = None \<longrightarrow> current_content st' = []"
    using inv by (cases "current_file st") (auto simp: st' scan_inv_def)
  from stored cur none show ?thesis
    unfolding scan_inv_def by blast
qed

lemma scan_inv_lines:
  assumes "scan_inv seen st" and "parse_lines st rest = Inr st'"
  shows "scan_inv (seen @ rest) st'"
  using assms
proof (induction rest arbitrary: seen st)
  case Nil
  then show ?case by simp
next
  case (Cons line rest)
  from Cons.prems(2) obtain st1 where step: "parse_line st line = Inr st1"
    and run: "parse_lines st1 rest = Inr st'"
    by (auto split: sum.splits)
  from scan_inv_step [OF Cons.prems(1) step] have "scan_inv (seen @ [line]) st1" .
  from Cons.IH [OF this run] show ?case
    by simp
qed

lemma scan_inv_initial: "scan_inv [] initial_state"
  by (simp add: scan_inv_def initial_state_def)

text \<open>
  Claim C10. A block whose buffer is empty when it is committed is not stored, and
  every entry that marker scanning puts in the result (every entry of a result that is
  not the default site) has a non-empty key and is the content of a marker block of
  the input with at least one content line.
\<close>

theorem stored_keys_have_content:
  assumes parsed: "parse_generated_content response = Inr result"
    and marked: "result \<noteq> create_default_website_structure response"
    and entry: "(k, v) \<in> set result"
  shows "k \<noteq> []
     \<and> (\<exists>pre m body post.
           py_split newline response = pre @ [m] @ body @ post
           \<and> is_marker_line m \<and> marker_name m = k
           \<and> (\<forall>line \<in> set body. \<not> is_marker_line line)
           \<and> (post = [] \<or> is_marker_line (hd post))
           \<and> content_lines body \<noteq> []
           \<and> v = py_join newline (content_lines body))
     \<and> (\<forall>st. current_content st = [] \<longrightarrow> commit st = files st)"
proof -
  let ?ls = "py_split newline response"
  have empty: "\<forall>st. current_content st = [] \<longrightarrow> commit st = files st"
    by (simp add: commit_def split: option.splits)
  from parsed obtain st where run: "parse_lines initial_state ?ls = Inr st"
    and result: "result = (if commit st = [] then create_default_website_structure response
                           else commit st)"
    by (auto simp: parse_generated_content_def Let_def split: sum.splits)
  from marked result have "result = commit st"
    by (simp split: if_splits)
  with entry have e: "(k, v) \<in> set (commit st)"
    by simp
  from scan_inv_lines [OF scan_inv_initial run] have inv: "scan_inv ?ls st"
    by simp
  from commit_entry [OF e] show ?thesis
  proof
    assume "(k, v) \<in> set (files st)"
    with inv obtain body where "k \<noteq> []" "closed_block ?ls k body" "content_lines body \<noteq> []"
      "v = py_join newline (content_lines body)"
      by (fastforce simp: scan_inv_def)
    with empty show ?thesis
      unfolding closed_block_def by blast
  next
    assume cur: "current_file st = Some k \<and> k \<noteq> [] \<and> current_content st \<noteq> []
            \<and> v = py_join newline (current_content st)"
    with inv obtain body where "open_block ?ls k body" "current_content st = content_lines body"
      by (auto simp: scan_inv_def)
    with cur obtain pre m where "?ls = pre @ [m] @ body @ []" "is_marker_line m"
      "marker_name m = k" "\<forall>line \<in> set body. \<not> is_marker_line line"
      "content_lines body \<noteq> []" "v = py_join newline (content_lines body)"
      by (auto simp: open_block_def)
    with cur empty show ?thesis
      by blast
  qed
qed

theorem stored_keys_have_content_witness:
  "parse_generated_content ''File: a\<newline>File: b\<newline>x'' = Inr [(''b'', ''x'')]
   \<and> (\<exists>pre m body post.
          py_split newline ''File: a\<newline>File: b\<newline>x'' = pre @ [m] @ body @ post
          \<and> is_marker_line m \<and> marker_name m = ''b''
          \<and> content_lines body \<noteq> []
          \<and> ''x'' = py_join newline (content_lines body))"
proof -
  have parsed: "parse_generated_content ''File: a\<newline>File: b\<newline>x'' = Inr [(''b'', ''x'')]"
    by (simp add: parse_eval)
  have marked: "[(''b'', ''x'')] \<noteq> create_default_website_structure ''File: a\<newline>File: b\<newline>x''"
    by (simp add: create_default_website_structure_def)
  have entry: "(''b'', ''x'') \<in> set [(''b'', ''x'')]"
    by simp
  from stored_keys_have_content [OF parsed marked entry] parsed show ?thesis
    by blast
qed


subsection \<open>Splitting at a character\<close>









subsection \<open>The marker line of a plain key\<close>








subsection \<open>Parsing the encoding\<close>







text \<open>The example scenario of the specification: two marker styles, one fenced block.\<close>

lemma spec_example_parses:
  "parse_generated_content
     ''Filename: index.html\<newline>```\<newline><h1>Hi</h1>\<newline>```\<newline>File: styles.css\<newline>body{color:red}''
   = Inr [(''index.html'', ''<h1>Hi</h1>''), (''styles.css'', ''body{color:red}'')]"
  by (simp add: parse_eval)






section \<open>Properties of the port allocator\<close>

lemma find_free_port_range:
  "find_free_port nw p = Inr q \<Longrightarrow> p \<le> q \<and> q < 65535"
proof (induction nw p rule: find_free_port.induct)
  case (1 nw p)
  show ?case
  proof (cases "p < 65535")
    case False
    with "1.prems" show ?thesis by (simp add: find_free_port.simps)
  next
    case True
    show ?thesis
    proof (cases "connect_ex nw p")
      case (Inl e)
      with True "1.prems" show ?thesis by (simp add: find_free_port.simps)
    next
      case (Inr rc)
      show ?thesis
      proof (cases "rc = 0")
        case True
        with \<open>p < 65535\<close> Inr "1.prems" have "find_free_port nw (p + 1) = Inr q"
          by (simp add: find_free_port.simps)
        with "1.IH" [OF \<open>p < 65535\<close> Inr] True \<open>p < 65535\<close> show ?thesis by simp
      next
        case False
        with \<open>p < 65535\<close> Inr "1.prems" show ?thesis by (simp add: find_free_port.simps)
      qed
    qed
  qed
qed

text \<open>
  Below 65535 the search is as intended: from a start port that is not negative it
  returns the first port that refuses a connection, and it raises when every port from
  the start up to 65534 accepts one.
\<close>

lemma find_free_port_free:
  assumes "find_free_port nw p = Inr q" and "0 \<le> p"
  shows "\<not> accepts nw q \<and> (\<forall>r. p \<le> r \<and> r < q \<longrightarrow> accepts nw r)"
  using assms
proof (induction nw p rule: find_free_port.induct)
  case (1 nw p)
  from "1.prems"(1) have lt: "p < 65535"
    by (subst (asm) find_free_port.simps) (simp split: if_splits)
  with "1.prems"(2) have probe: "connect_ex nw p = Inr (if accepts nw p then 0 else 111)"
    by (simp add: connect_ex_def)
  show ?case
  proof (cases "accepts nw p")
    case False
    with lt probe "1.prems"(1) have "q = p"
      by (subst (asm) find_free_port.simps) simp
    with False show ?thesis by auto
  next
    case True
    with lt probe "1.prems"(1) have next_port: "find_free_port nw (p + 1) = Inr q"
      by (subst (asm) find_free_port.simps) simp
    from "1.IH" [OF lt _ _ next_port] True probe "1.prems"(2)
    have "\<not> accepts nw q \<and> (\<forall>r. p + 1 \<le> r \<and> r < q \<longrightarrow> accepts nw r)"
      by simp
    moreover have "r = p \<or> p + 1 \<le> r" if "p \<le> r" for r
      using that by arith
    ultimately show ?thesis
      using True by blast
  qed
qed

lemma find_free_port_exhausted:
  assumes "0 \<le> p" and "\<forall>r. p \<le> r \<and> r < 65535 \<longrightarrow> accepts nw r"
  shows "find_free_port nw p = Inl (RuntimeError ''No free ports available'')"
  using assms
proof (induction nw p rule: find_free_port.induct)
  case (1 nw p)
  show ?case
  proof (cases "p < 65535")
    case False
    then show ?thesis
      by (subst find_free_port.simps) simp
  next
    case True
    with "1.prems" have probe: "connect_ex nw p = Inr 0"
      by (simp add: connect_ex_def)
    from "1.IH" [OF True probe] "1.prems"
    have "find_free_port nw (p + 1) = Inl (RuntimeError ''No free ports available'')"
      by simp
    with True probe show ?thesis
      by (subst find_free_port.simps) simp
  qed
qed

text \<open>
  Claim C6. \<open>find_free_port\<close> stops at \<open>port < 65535\<close>: port 65535 is never probed.
  With no listener anywhere, a connection to port 65535 is refused (the port is free),
  and yet \<open>find_free_port(65535)\<close> raises "No free ports available".
\<close>

theorem find_free_port_never_probes_65535:
  "connect_ex \<lparr>accepts = (\<lambda>p. False), in_use = (\<lambda>p. False)\<rparr> 65535 = Inr 111
   \<and> find_free_port \<lparr>accepts = (\<lambda>p. False), in_use = (\<lambda>p. False)\<rparr> 65535
       = Inl (RuntimeError ''No free ports available'')"
  by (simp add: connect_ex_def find_free_port.simps)

section \<open>Properties of the server registry\<close>



text \<open>
  The first start returns when the environment exists, no server is registered for it
  and the wanted port is free.
\<close>

lemma start_local_server_free_port:
  assumes "path_exists (fs st) (path_join (base_directory st) name)"
    and "map_of (active_servers st) name = None"
    and "0 < q" and "q \<le> 65535"
    and "\<not> accepts (net st) q" and "\<not> in_use (net st) q"
  shows "fst (start_local_server st name (Some q)) = Inr (Some (localhost_url q))"
  using assms
  by (simp add: start_local_server_def server_start_def new_local_web_server_def
      port_or_default_def connect_ex_def http_server_bind_def Let_def)




section \<open>Properties of the environment store\<close>

lemma walk_mono:
  assumes "\<And>q. is_dir f q \<Longrightarrow> is_dir f' q" and "walk f cur p = Inr r"
  shows "walk f' cur p = Inr r"
  using assms(2)
proof (induction p arbitrary: cur)
  case Nil
  then show ?case by simp
next
  case (Cons part ps)
  from Cons.prems have d: "is_dir f cur"
    by (auto split: if_splits)
  with Cons.prems have "walk f (if part = ''..'' then butlast cur else cur @ [part]) ps = Inr r"
    by simp
  from Cons.IH [OF this] d assms(1) show ?case
    by simp
qed






lemma path_join_plain [simp]:
  "path_join p ''static'' = p @ [''static'']"
  "path_join p ''templates'' = p @ [''templates'']"
  "path_join p ''assets'' = p @ [''assets'']"
  "path_join p ''css'' = p @ [''css'']"
  "path_join p ''js'' = p @ [''js'']"
  "path_join p ''images'' = p @ [''images'']"
  by (simp_all add: path_join_def path_parts_def py_split.simps)

lemma walk_append:
  "walk f cur (xs @ ys) = (case walk f cur xs of Inl e \<Rightarrow> Inl e | Inr c \<Rightarrow> walk f c ys)"
  by (induction xs arbitrary: cur) simp_all

lemma walk_plain:
  assumes "walk f cur ps = Inr r" and "\<forall>part \<in> set ps. part \<noteq> ''..''"
  shows "r = cur @ ps"
  using assms
proof (induction ps arbitrary: cur)
  case Nil
  then show ?case by simp
next
  case (Cons part ps)
  from Cons.prems have "walk f (cur @ [part]) ps = Inr r"
    by (auto split: if_splits)
  from Cons.IH [OF this] Cons.prems(2) show ?case
    by simp
qed

lemma locate_child:
  assumes "locate f p = Inr loc" and "is_dir f loc" and "d \<noteq> ''..''"
  shows "locate f (p @ [d]) = Inr (loc @ [d])"
  using assms by (simp add: locate_def walk_append)

lemma mkdir_exist_ok_Inr:
  assumes "mkdir_exist_ok p f = Inr f'"
  obtains loc where "locate f p = Inr loc" and "f' = f\<lparr>is_dir := (is_dir f)(loc := True)\<rparr>"
proof (cases "os_mkdir f p")
  case (Inr f1)
  with assms have "f' = f1" by (simp add: mkdir_exist_ok_def)
  with Inr that show ?thesis
    by (auto simp: os_mkdir_def split: sum.splits if_splits)
next
  case (Inl e)
  with assms have d: "path_is_dir f p" and "f' = f"
    by (auto simp: mkdir_exist_ok_def split: py_error.splits if_splits)
  from d obtain loc where loc: "locate f p = Inr loc" "is_dir f loc"
    by (auto simp: path_is_dir_def split: sum.splits)
  then have "(is_dir f)(loc := True) = is_dir f"
    by (simp add: fun_upd_idem_iff)
  with loc \<open>f' = f\<close> that show ?thesis
    by simp
qed

lemma locate_mono:
  assumes "\<And>q. is_dir f q \<Longrightarrow> is_dir f' q" and "locate f p = Inr r"
  shows "locate f' p = Inr r"
  using walk_mono [of f f'] assms by (simp add: locate_def)

lemma path_is_dir_mono:
  assumes "\<And>q. is_dir f q \<Longrightarrow> is_dir f' q" and "path_is_dir f p"
  shows "path_is_dir f' p"
proof -
  from assms(2) obtain loc where "locate f p = Inr loc" "is_dir f loc"
    by (auto simp: path_is_dir_def split: sum.splits)
  with locate_mono [OF assms(1)] assms(1) show ?thesis
    by (simp add: path_is_dir_def)
qed

lemma mkdir_exist_ok_again:
  assumes "path_is_dir f p"
  shows "mkdir_exist_ok p f = Inr f"
proof -
  from assms obtain loc where "locate f p = Inr loc" "is_dir f loc"
    by (auto simp: path_is_dir_def split: sum.splits)
  then have "os_mkdir f p = Inl FileExistsError"
    by (simp add: os_mkdir_def)
  with assms show ?thesis
    by (simp add: mkdir_exist_ok_def)
qed

lemma run_stmts_Cons_ok:
  "run_stmts (stmt # rest) f = (None, f') \<longleftrightarrow>
     (\<exists>f1. stmt f = Inr f1 \<and> run_stmts rest f1 = (None, f'))"
  by (cases "stmt f") auto

lemma create_test_environment_steps:
  assumes "create_test_environment st name clean = (Inr p, st')"
  obtains f0 f1 f2 f3 f4 f5 f6 where
    "p = path_join (base_directory st) name"
    "(if path_exists (fs st) p \<and> clean then rmtree p (fs st) else Inr (fs st)) = Inr f0"
    "mkdir_exist_ok p f0 = Inr f1"
    "mkdir_exist_ok (p @ [''static'']) f1 = Inr f2"
    "mkdir_exist_ok (p @ [''templates'']) f2 = Inr f3"
    "mkdir_exist_ok (p @ [''assets'']) f3 = Inr f4"
    "mkdir_exist_ok (p @ [''css'']) f4 = Inr f5"
    "mkdir_exist_ok (p @ [''js'']) f5 = Inr f6"
    "mkdir_exist_ok (p @ [''images'']) f6 = Inr (fs st')"
    "st' = st\<lparr>fs := fs st'\<rparr>"
proof -
  let ?p = "path_join (base_directory st) name"
  from assms obtain f where p: "p = ?p" and st': "st' = st\<lparr>fs := f\<rparr>"
    and run: "run_stmts
              [\<lambda>f. if path_exists f ?p \<and> clean then rmtree ?p f else Inr f,
               mkdir_exist_ok ?p,
               mkdir_exist_ok (?p @ [''static'']),
               mkdir_exist_ok (?p @ [''templates'']),
               mkdir_exist_ok (?p @ [''assets'']),
               mkdir_exist_ok (?p @ [''css'']),
               mkdir_exist_ok (?p @ [''js'']),
               mkdir_exist_ok (?p @ [''images''])]
              (fs st) = (None, f)"
    by (auto simp: create_test_environment_def Let_def split: prod.splits option.splits)
  from st' have f: "fs st' = f" by simp
  from run obtain f0 f1 f2 f3 f4 f5 f6 where steps:
    "(if path_exists (fs st) ?p \<and> clean then rmtree ?p (fs st) else Inr (fs st)) = Inr f0"
    "mkdir_exist_ok ?p f0 = Inr f1"
    "mkdir_exist_ok (?p @ [''static'']) f1 = Inr f2"
    "mkdir_exist_ok (?p @ [''templates'']) f2 = Inr f3"
    "mkdir_exist_ok (?p @ [''assets'']) f3 = Inr f4"
    "mkdir_exist_ok (?p @ [''css'']) f4 = Inr f5"
    "mkdir_exist_ok (?p @ [''js'']) f5 = Inr f6"
    "mkdir_exist_ok (?p @ [''images'']) f6 = Inr f"
    unfolding run_stmts_Cons_ok by auto
  note s = steps [folded p]
  from s(8) f have last: "mkdir_exist_ok (p @ [''images'']) f6 = Inr (fs st')"
    by simp
  from st' have "st' = st\<lparr>fs := fs st'\<rparr>"
    by simp
  with p s(1-7) last show ?thesis
    by (rule that)
qed

lemma mkdir_child:
  assumes "mkdir_exist_ok (p @ [d]) f = Inr f'"
    and "locate f p = Inr root" and "is_dir f root" and "d \<noteq> ''..''"
  shows "f' = f\<lparr>is_dir := (is_dir f)(root @ [d] := True)\<rparr>"
proof -
  from assms(1) obtain loc where "locate f (p @ [d]) = Inr loc"
    and f': "f' = f\<lparr>is_dir := (is_dir f)(loc := True)\<rparr>"
    by (rule mkdir_exist_ok_Inr)
  with locate_child [OF assms(2-4)] show ?thesis
    by simp
qed

lemma create_test_environment_result:
  assumes "create_test_environment st name clean = (Inr p, st')"
  obtains f0 root where
    "p = path_join (base_directory st) name"
    "(if path_exists (fs st) p \<and> clean then rmtree p (fs st) else Inr (fs st)) = Inr f0"
    "locate f0 p = Inr root"
    "is_dir (fs st') = (\<lambda>q. is_dir f0 q \<or> q = root \<or> q \<in> (\<lambda>d. root @ [d]) ` set skeleton)"
    "file_content (fs st') = file_content f0"
    "st' = st\<lparr>fs := fs st'\<rparr>"
proof -
  from assms obtain f0 f1 f2 f3 f4 f5 f6 where
    p: "p = path_join (base_directory st) name"
    and s0: "(if path_exists (fs st) p \<and> clean then rmtree p (fs st) else Inr (fs st)) = Inr f0"
    and s1: "mkdir_exist_ok p f0 = Inr f1"
    and s2: "mkdir_exist_ok (p @ [''static'']) f1 = Inr f2"
    and s3: "mkdir_exist_ok (p @ [''templates'']) f2 = Inr f3"
    and s4: "mkdir_exist_ok (p @ [''assets'']) f3 = Inr f4"
    and s5: "mkdir_exist_ok (p @ [''css'']) f4 = Inr f5"
    and s6: "mkdir_exist_ok (p @ [''js'']) f5 = Inr f6"
    and s7: "mkdir_exist_ok (p @ [''images'']) f6 = Inr (fs st')"
    and st': "st' = st\<lparr>fs := fs st'\<rparr>"
    by (rule create_test_environment_steps)
  from s1 obtain root where root: "locate f0 p = Inr root"
    and f1: "f1 = f0\<lparr>is_dir := (is_dir f0)(root := True)\<rparr>"
    by (rule mkdir_exist_ok_Inr)
  have l1: "locate f1 p = Inr root" and d1: "is_dir f1 root"
    using locate_mono [OF _ root, of f1] by (simp_all add: f1)
  have f2: "f2 = f1\<lparr>is_dir := (is_dir f1)(root @ [''static''] := True)\<rparr>"
    using s2 l1 d1 by (rule mkdir_child) simp
  have l2: "locate f2 p = Inr root" and d2: "is_dir f2 root"
    using locate_mono [OF _ l1, of f2] d1 by (simp_all add: f2)
  have f3: "f3 = f2\<lparr>is_dir := (is_dir f2)(root @ [''templates''] := True)\<rparr>"
    using s3 l2 d2 by (rule mkdir_child) simp
  have l3: "locate f3 p = Inr root" and d3: "is_dir f3 root"
    using locate_mono [OF _ l2, of f3] d2 by (simp_all add: f3)
  have f4: "f4 = f3\<lparr>is_dir := (is_dir f3)(root @ [''assets''] := True)\<rparr>"
    using s4 l3 d3 by (rule mkdir_child) simp
  have l4: "locate f4 p = Inr root" and d4: "is_dir f4 root"
    using locate_mono [OF _ l3, of f4] d3 by (simp_all add: f4)
  have f5: "f5 = f4\<lparr>is_dir := (is_dir f4)(root @ [''css''] := True)\<rparr>"
    using s5 l4 d4 by (rule mkdir_child) simp
  have l5: "locate f5 p = Inr root" and d5: "is_dir f5 root"
    using locate_mono [OF _ l4, of f5] d4 by (simp_all add: f5)
  have f6: "f6 = f5\<lparr>is_dir := (is_dir f5)(root @ [''js''] := True)\<rparr>"
    using s6 l5 d5 by (rule mkdir_child) simp
  have l6: "locate f6 p = Inr root" and d6: "is_dir f6 root"
    using locate_mono [OF _ l5, of f6] d5 by (simp_all add: f6)
  have f7: "fs st' = f6\<lparr>is_dir := (is_dir f6)(root @ [''images''] := True)\<rparr>"
    using s7 l6 d6 by (rule mkdir_child) simp
  have dirs: "is_dir (fs st') =
      (\<lambda>q. is_dir f0 q \<or> q = root \<or> q \<in> (\<lambda>d. root @ [d]) ` set skeleton)"
    by (rule ext) (auto simp: f7 f6 f5 f4 f3 f2 f1 skeleton_def)
  have files: "file_content (fs st') = file_content f0"
    by (simp add: f7 f6 f5 f4 f3 f2 f1)
  from p s0 root dirs files st' show ?thesis
    by (rule that)
qed

text \<open>
  Claim C8. When \<open>create_test_environment(name, clean)\<close> returns, it returns the path
  \<open>base_directory / name\<close>; that path and its six fixed subdirectories are directories.
  With \<open>clean\<close> true and a path that existed, what was below it is gone: below the
  environment root there are the six subdirectories and nothing else. With \<open>clean\<close>
  false nothing that existed is removed. Calling again with \<open>clean\<close> false returns the
  same path and changes nothing.
\<close>

theorem create_test_environment_skeleton:
  assumes "create_test_environment st name clean = (Inr p, st')"
  shows "p = path_join (base_directory st) name
     \<and> path_is_dir (fs st') p
     \<and> (\<forall>d \<in> set skeleton. path_is_dir (fs st') (path_join p d))
     \<and> (clean \<and> path_exists (fs st) p \<longrightarrow>
          (\<exists>root. locate (fs st') p = Inr root
             \<and> (\<forall>q. prefix root q \<longrightarrow>
                   (is_dir (fs st') q \<longleftrightarrow> q = root \<or> q \<in> (\<lambda>d. root @ [d]) ` set skeleton)
                   \<and> file_content (fs st') q = None)))
     \<and> (\<not> clean \<longrightarrow>
          (\<forall>q. is_dir (fs st) q \<longrightarrow> is_dir (fs st') q)
          \<and> file_content (fs st') = file_content (fs st))
     \<and> create_test_environment st' name False = (Inr p, st')"
proof -
  from assms obtain f0 root where
    p: "p = path_join (base_directory st) name"
    and s0: "(if path_exists (fs st) p \<and> clean then rmtree p (fs st) else Inr (fs st)) = Inr f0"
    and root: "locate f0 p = Inr root"
    and dirs: "is_dir (fs st') =
      (\<lambda>q. is_dir f0 q \<or> q = root \<or> q \<in> (\<lambda>d. root @ [d]) ` set skeleton)"
    and files: "file_content (fs st') = file_content f0"
    and st': "st' = st\<lparr>fs := fs st'\<rparr>"
    by (rule create_test_environment_result)
  have loc': "locate (fs st') p = Inr root"
    using locate_mono [OF _ root, of "fs st'"] by (simp add: dirs)
  have root_dir: "is_dir (fs st') root"
    by (simp add: dirs)
  have env_dir: "path_is_dir (fs st') p"
    by (simp add: path_is_dir_def loc' root_dir)
  have child: "path_is_dir (fs st') (p @ [d])" if "d \<in> set skeleton" for d
  proof -
    from that have "d \<noteq> ''..''" by (auto simp: skeleton_def)
    from locate_child [OF loc' root_dir this] that show ?thesis
      by (simp add: path_is_dir_def dirs)
  qed
  have children: "\<forall>d \<in> set skeleton. path_is_dir (fs st') (path_join p d)"
  proof
    fix d assume d: "d \<in> set skeleton"
    then have "path_join p d = p @ [d]" by (auto simp: skeleton_def)
    with child [OF d] show "path_is_dir (fs st') (path_join p d)" by simp
  qed
  have cleaned: "\<exists>root. locate (fs st') p = Inr root
             \<and> (\<forall>q. prefix root q \<longrightarrow>
                   (is_dir (fs st') q \<longleftrightarrow> q = root \<or> q \<in> (\<lambda>d. root @ [d]) ` set skeleton)
                   \<and> file_content (fs st') q = None)"
    if "clean \<and> path_exists (fs st) p"
  proof -
    from that s0 have rm: "rmtree p (fs st) = Inr f0" by simp
    then obtain loc where loc: "locate (fs st) p = Inr loc"
      and f0: "f0 = (fs st)\<lparr>is_dir := (\<lambda>q. is_dir (fs st) q \<and> \<not> prefix loc q),
                   file_content := (\<lambda>q. if prefix loc q then None else file_content (fs st) q)\<rparr>"
      by (auto simp: rmtree_def split: sum.splits if_splits)
    have "locate (fs st) p = Inr root"
      using locate_mono [OF _ root, of "fs st"] by (simp add: f0)
    with loc have "loc = root" by simp
    then have "\<forall>q. prefix root q \<longrightarrow>
                   (is_dir (fs st') q \<longleftrightarrow> q = root \<or> q \<in> (\<lambda>d. root @ [d]) ` set skeleton)
                   \<and> file_content (fs st') q = None"
      by (simp add: dirs files f0)
    with loc' show ?thesis by blast
  qed
  have kept: "(\<forall>q. is_dir (fs st) q \<longrightarrow> is_dir (fs st') q)
          \<and> file_content (fs st') = file_content (fs st)" if "\<not> clean"
  proof -
    from that s0 have "f0 = fs st" by simp
    then show ?thesis by (simp add: dirs files)
  qed
  have again: "create_test_environment st' name False = (Inr p, st')"
  proof -
    have b: "base_directory st' = base_directory st"
      by (subst st') simp
    have "mkdir_exist_ok p (fs st') = Inr (fs st')"
      using env_dir by (rule mkdir_exist_ok_again)
    moreover have "mkdir_exist_ok (p @ [d]) (fs st') = Inr (fs st')" if "d \<in> set skeleton" for d
      using child [OF that] by (rule mkdir_exist_ok_again)
    ultimately show ?thesis
      by (simp add: create_test_environment_def b p [symmetric] skeleton_def)
  qed
  from p env_dir children cleaned kept again show ?thesis
    by blast
qed


lemmas fs_eval =
  path_join_def path_parts_def py_split.simps path_exists_def path_is_dir_def locate_def
  rmtree_def os_mkdir_def mkdir_exist_ok_def Let_def

theorem create_test_environment_skeleton_witness:
  "fst (create_test_environment demo_stale ''shop'' True) = Inr [''work'', ''test_environments'', ''shop'']
   \<and> path_is_dir (fs (snd (create_test_environment demo_stale ''shop'' True)))
        [''work'', ''test_environments'', ''shop'']
   \<and> path_is_dir (fs (snd (create_test_environment demo_stale ''shop'' True)))
        [''work'', ''test_environments'', ''shop'', ''static'']
   \<and> path_is_dir (fs (snd (create_test_environment demo_stale ''shop'' True)))
        [''work'', ''test_environments'', ''shop'', ''images'']
   \<and> file_content (fs (snd (create_test_environment demo_stale ''shop'' True)))
        [''work'', ''test_environments'', ''shop'', ''old.html''] = None
   \<and> create_test_environment (snd (create_test_environment demo_stale ''shop'' True)) ''shop'' False
       = (Inr [''work'', ''test_environments'', ''shop''],
          snd (create_test_environment demo_stale ''shop'' True))
   \<and> fst (create_test_environment demo_stale ''shop'' False)
       = Inr [''work'', ''test_environments'', ''shop'']
   \<and> file_content (fs (snd (create_test_environment demo_stale ''shop'' False)))
        [''work'', ''test_environments'', ''shop'', ''old.html''] = Some ''<p>old</p>''"
proof -
  let ?r = "create_test_environment demo_stale ''shop'' True"
  let ?k = "create_test_environment demo_stale ''shop'' False"
  let ?p = "[''work'', ''test_environments'', ''shop'']"
  have ret_keep: "fst ?k = Inr ?p"
    by (simp add: create_test_environment_def demo_stale_def demo_state_def demo_fs_def fs_eval)
  then have keep: "?k = (Inr ?p, snd ?k)"
    by (metis prod.collapse)
  from create_test_environment_skeleton [OF keep]
  have "file_content (fs (snd ?k)) = file_content (fs demo_stale)"
    by blast
  then have kept: "file_content (fs (snd ?k)) (?p @ [''old.html'']) = Some ''<p>old</p>''"
    by (simp add: demo_stale_def)
  have ret: "fst ?r = Inr ?p"
    by (simp add: create_test_environment_def demo_stale_def demo_state_def demo_fs_def fs_eval)
  then have first: "?r = (Inr ?p, snd ?r)"
    by (metis prod.collapse)
  have ex: "path_exists (fs demo_stale) ?p"
    by (simp add: demo_stale_def demo_state_def demo_fs_def fs_eval)
  note sk = create_test_environment_skeleton [OF first]
  from sk have d: "path_is_dir (fs (snd ?r)) ?p"
    and ch: "\<forall>d \<in> set skeleton. path_is_dir (fs (snd ?r)) (path_join ?p d)"
    and again: "create_test_environment (snd ?r) ''shop'' False = (Inr ?p, snd ?r)"
    by blast+
  from sk ex obtain root where root: "locate (fs (snd ?r)) ?p = Inr root"
    and under: "\<forall>q. prefix root q \<longrightarrow> file_content (fs (snd ?r)) q = None"
    by blast
  from walk_plain [of "fs (snd ?r)" "[]" ?p root] root have "root = ?p"
    by (simp add: locate_def)
  with under have gone: "file_content (fs (snd ?r)) (?p @ [''old.html'']) = None"
    by simp
  from ch have "path_is_dir (fs (snd ?r)) (?p @ [''static''])"
    and "path_is_dir (fs (snd ?r)) (?p @ [''images''])"
    by (simp_all add: skeleton_def)
  with ret d gone again ret_keep kept show ?thesis
    by simp
qed


lemmas fs_eval2 = fs_eval os_mkdir_def mkdir_parents.simps write_text_def parent_def
















section \<open>Properties of generation and deployment\<close>

lemma demo_generate:
  "generate_website_from_prompt demo_collaborators ''a shop'' None =
     Inr \<lparr>wd_files = [(''index.html'', ''<h1>Hi</h1>'')],
          wd_metadata = [(''user_prompt'', Some ''a shop''),
                         (''additional_requirements'', None),
                         (''generation_timestamp'', Some ''/work'')],
          raw_response = ''File: index.html\<newline><h1>Hi</h1>''\<rparr>"
  by (simp add: generate_website_from_prompt_def demo_collaborators_def parse_eval)

lemma demo_co [simp]:
  "randint demo_collaborators lo hi = 4242"
  "json_dump demo_collaborators m = ''{}''"
  by (simp_all add: demo_collaborators_def)

lemma demo_name: "str_int 4242 = ''4242''"
  by (simp add: str_int_def str_nat.simps)

lemma demo_run:
  "(let r = generate_and_deploy demo_collaborators demo_state ''a shop'' None None None
    in (map_sum id environment_name (fst r),
        map fst (active_servers (snd r)),
        path_is_dir (fs (snd r)) [''work'', ''test_environments'', ''merchant_test_4242''],
        path_exists (fs (snd r)) [''work'', ''test_environments'', ''generated_test'']))
   = (Inr ''generated_test'', [''merchant_test_4242''], True, False)"
  by (simp add: generate_and_deploy_def demo_generate deploy_to_local_environment_def
      demo_name create_test_environment_def create_website_files_def start_local_server_def
      server_start_def new_local_web_server_def port_or_default_def connect_ex_def
      http_server_bind_def localhost_url_def demo_state_def demo_fs_def fs_eval2)

text \<open>
  Claim C9. \<open>generate_and_deploy\<close> called with no environment name: the environment
  that is created and served is \<open>merchant_test_4242\<close> (the name made up inside
  \<open>deploy_to_local_environment\<close> from the random number 4242), and the
  \<open>environment_name\<close> field of the returned descriptor is \<open>generated_test\<close>, a name
  for which no directory exists and no server is registered.
\<close>

theorem generate_and_deploy_reports_wrong_name:
  "map_sum id environment_name
       (fst (generate_and_deploy demo_collaborators demo_state ''a shop'' None None None))
     = Inr ''generated_test''
   \<and> map fst (active_servers
         (snd (generate_and_deploy demo_collaborators demo_state ''a shop'' None None None)))
     = [''merchant_test_4242'']
   \<and> path_is_dir
         (fs (snd (generate_and_deploy demo_collaborators demo_state ''a shop'' None None None)))
         [''work'', ''test_environments'', ''merchant_test_4242'']
   \<and> \<not> path_exists
         (fs (snd (generate_and_deploy demo_collaborators demo_state ''a shop'' None None None)))
         [''work'', ''test_environments'', ''generated_test'']"
  using demo_run unfolding Let_def by (simp only: prod.inject simp_thms)


end
